theory Spec2Isabelle
  imports Main "HOL-Library.Word" "HOL-Library.Signed_Division"
begin

unbundle bit_operations_syntax

section \<open>Values shared by the widget code\<close>

text \<open>
  Go's \<open>int\<close> is modelled as \<open>int\<close>, with \<open>wrap_int\<close> around the sums and
  differences of the scroll and layout code (positions in a slice, which stay far below
  the range, are counted without it); the 32-bit fixed-point type
  \<open>fixed.Int26_6\<close> (26 integer bits, 6 fraction bits) is a \<open>32 word\<close>, so its
  additions and subtractions wrap as Go's \<open>int32\<close> does. Go strings are byte strings:
  \<open>string\<close>. A panic is a value of type \<open>panic\<close>, returned on the left of a sum.
\<close>

datatype panic = UnknownAlignment | IndexOutOfRange | SliceOutOfRange

type_synonym Int26_6 = "32 word"

text \<open>\<open>fixed.I(i)\<close> is \<open>Int26_6(i << 6)\<close>, \<open>x.Floor()\<close> is \<open>int(x >> 6)\<close> and
  \<open>x.Ceil()\<close> is \<open>int((x + 0x3f) >> 6)\<close>, with an arithmetic shift.\<close>

definition fixed_I :: "int \<Rightarrow> Int26_6" where
  "fixed_I i = word_of_int (i * 64)"

definition Floor :: "Int26_6 \<Rightarrow> int" where
  "Floor v = sint v div 64"


text \<open>Arithmetic on Go's \<open>int\<close> wraps at 64 bits.\<close>

definition wrap_int :: "int \<Rightarrow> int" where
  "wrap_int i = signed_take_bit 63 i"

record Point =
  X :: int
  Y :: int

record Rectangle =
  RMin :: Point
  RMax :: Point

record Point26_6 =
  FX :: Int26_6
  FY :: Int26_6

record Rectangle26_6 =
  BMin :: Point26_6
  BMax :: Point26_6

record Dimensions =
  Size :: Point
  Baseline :: int

definition zeroPoint :: Point where
  "zeroPoint = \<lparr>X = 0, Y = 0\<rparr>"

text \<open>\<open>text.Alignment\<close> is a \<open>uint8\<close> with the constants \<open>Start\<close>, \<open>End\<close> and
  \<open>Middle\<close> numbered from zero in that order.\<close>

type_synonym Alignment = "8 word"

definition Start :: Alignment where "Start = 0"
definition End :: Alignment where "End = 1"
definition Middle :: Alignment where "Middle = 2"

record Layout =
  Text :: string
  Advances :: "Int26_6 list"

record Line =
  Layout :: Layout
  Width :: Int26_6
  Ascent :: Int26_6
  Descent :: Int26_6
  Bounds :: Rectangle26_6

section \<open>Labels (label.go)\<close>

subsection \<open>Alignment\<close>

text \<open>Go's \<open>v / 2\<close> on an \<open>int32\<close> truncates towards zero.\<close>

definition half :: "Int26_6 \<Rightarrow> Int26_6" where
  "half v = word_of_int (sint v sdiv 2)"

text \<open>\<open>align\<close> of label.go. The \<open>default\<close> branch of its switch panics.\<close>

definition align :: "Alignment \<Rightarrow> Int26_6 \<Rightarrow> int \<Rightarrow> panic + Int26_6" where
  "align a width maxWidth =
     (let mw = fixed_I maxWidth
      in if a = Middle then Inr (fixed_I (Floor (half (mw - width))))
         else if a = End then Inr (fixed_I (Floor (mw - width)))
         else if a = Start then Inr 0
         else Inl UnknownAlignment)"

text \<open>The alignments that \<open>align\<close> knows.\<close>

definition alignmentKnown :: "Alignment \<Rightarrow> bool" where
  "alignmentKnown a \<longleftrightarrow> a = Start \<or> a = End \<or> a = Middle"



subsection \<open>Positions and selection\<close>

definition LessOrEqual :: "Point \<Rightarrow> Point \<Rightarrow> bool" where
  "LessOrEqual p1 p2 \<longleftrightarrow> Y p1 < Y p2 \<or> (Y p1 = Y p2 \<and> X p1 \<le> X p2)"

definition Less :: "Point \<Rightarrow> Point \<Rightarrow> bool" where
  "Less p1 p2 \<longleftrightarrow> Y p1 < Y p2 \<or> (Y p1 = Y p2 \<and> X p1 < X p2)"

text \<open>
  The iterator. The fields \<open>Alignment\<close>, \<open>Width\<close>, \<open>line\<close>, \<open>layout\<close>, \<open>x\<close> and
  \<open>y\<close> carry the prefix \<open>it_\<close>.
\<close>

record segmentIterator =
  Lines :: "Line list"
  Clip :: Rectangle
  it_Alignment :: Alignment
  it_Width :: int
  Offset :: Point
  StartSel :: Point
  EndSel :: Point
  pos :: Point
  it_line :: Line
  it_layout :: Layout
  off :: Point26_6
  it_x :: Int26_6
  it_y :: Int26_6
  prevDesc :: Int26_6


subsection \<open>Runes of a string\<close>

text \<open>
  The number of bytes that \<open>utf8.DecodeRuneInString\<close> of the standard library takes
  for the first rune of a string, which is also the step of a \<open>range\<close> loop over the
  string: 0 for the empty string, 1 for an ASCII byte and for a byte that does not start
  a well-formed encoding, else the length of the encoding.
\<close>

definition byte_at :: "string \<Rightarrow> nat \<Rightarrow> nat" where
  "byte_at s i = of_char (s ! i)"

definition utf8_size :: "string \<Rightarrow> nat" where
  "utf8_size s =
     (if s = [] then 0
      else (let s0 = byte_at s 0;
                sz = (if s0 < 0xE0 then 2 else if s0 < 0xF0 then 3 else (4::nat));
                lo = (if s0 = 0xE0 then 0xA0 else if s0 = 0xF0 then 0x90 else 0x80);
                hi = (if s0 = 0xED then 0x9F else if s0 = 0xF4 then 0x8F else 0xBF)
            in if s0 < 0xC2 \<or> 0xF4 < s0 then 1
               else if length s < sz then 1
               else if byte_at s 1 < lo \<or> hi < byte_at s 1 then 1
               else if sz \<le> 2 then 2
               else if byte_at s 2 < 0x80 \<or> 0xBF < byte_at s 2 then 1
               else if sz \<le> 3 then 3
               else if byte_at s 3 < 0x80 \<or> 0xBF < byte_at s 3 then 1
               else 4))"

lemma utf8_size_bounds:
  assumes "s \<noteq> []"
  shows "0 < utf8_size s \<and> utf8_size s \<le> length s"
proof -
  from assms have len: "1 \<le> length s"
    by (cases s) simp_all
  define s0 where "s0 = byte_at s 0"
  define sz where "sz = (if s0 < 0xE0 then 2 else if s0 < 0xF0 then 3 else (4::nat))"
  have sz: "2 \<le> sz" "sz \<le> 4"
    by (simp_all add: sz_def)
  have "utf8_size s = 1 \<or> (sz \<le> length s \<and> utf8_size s \<le> sz \<and> 0 < utf8_size s)"
    using assms sz unfolding utf8_size_def Let_def s0_def [symmetric] sz_def [symmetric]
    by (simp split: if_splits)
  with len show ?thesis by auto
qed

subsection \<open>One call of Next\<close>













subsection \<open>Progress of the iterator\<close>













subsection \<open>Iterating to the end\<close>





subsection \<open>Iterators that do not panic\<close>

text \<open>The number of runes that a \<open>range\<close> loop finds in a string.\<close>

function runeCount :: "string \<Rightarrow> nat" where
  "runeCount s = (if s = [] then 0 else Suc (runeCount (drop (utf8_size s) s)))"
  by pat_completeness auto
termination
  by (relation "measure length") (simp_all add: utf8_size_bounds)

declare runeCount.simps [simp del]



subsection \<open>Laying out a label\<close>











section \<open>The editor\<close>

datatype EditorEvent = ChangeEvent | SubmitEvent string | SelectEvent string

text \<open>
  Modelled from the spec: \<open>editBuffer\<close>, the editor's text buffer, is a type of the
  widget package whose file is not among the sources. The editor's own comments fix what
  it is used for here: \<open>Text\<close> returns the contents, \<open>SetText\<close> replaces them, and
  \<open>prepend\<close> puts a string in at the caret without moving the caret (\<open>append\<close> moves
  the caret by the string's length afterwards). The zero value is the empty buffer with
  the caret at 0.
\<close>

record editBuffer =
  eb_text :: string
  eb_caret :: int
  changed :: bool

definition editBuffer_zero :: editBuffer where
  "editBuffer_zero = \<lparr>eb_text = [], eb_caret = 0, changed = False\<rparr>"

definition eb_prepend :: "string \<Rightarrow> editBuffer \<Rightarrow> editBuffer" where
  "eb_prepend s b =
     b\<lparr>eb_text := take (nat (eb_caret b)) (eb_text b) @ s @ drop (nat (eb_caret b)) (eb_text b),
       changed := (changed b \<or> s \<noteq> [])\<rparr>"

definition eb_String :: "editBuffer \<Rightarrow> string" where
  "eb_String b = eb_text b"

text \<open>
  The fields of \<open>Editor\<close> that the modelled functions read or write. The anonymous
  \<open>caret\<close> struct is flattened (\<open>e.caret.line\<close> is \<open>caret_line e\<close>). The font, the
  shaper, the gesture recognisers, the blink clock and the shaped paths are left out: no
  modelled function branches on them.
\<close>

record Editor =
  Alignment :: Alignment
  SingleLine :: bool
  Submit :: bool
  Mask :: int
  rr :: editBuffer
  valid :: bool
  lines :: "Line list"
  dims :: Dimensions
  viewSize :: Point
  caret_scroll :: bool
  caret_xoff :: Int26_6
  caret_line :: int
  caret_col :: int
  caret_x :: Int26_6
  caret_y :: int
  startDrag :: Point
  endDrag :: Point
  dragging :: bool
  scrollOff :: Point
  events :: "EditorEvent list"
  prevEvents :: int

subsection \<open>The event queue\<close>

text \<open>\<open>Events\<close> hands the queue out and leaves \<open>nil\<close> behind.\<close>

definition Events :: "Editor \<Rightarrow> EditorEvent list \<times> Editor" where
  "Events e = (events e, e\<lparr>events := [], prevEvents := 0\<rparr>)"

text \<open>\<open>e.events = append(e.events, ev)\<close>, as \<open>processPointer\<close> and \<open>processKey\<close>
  queue an event.\<close>

definition appendEvent :: "Editor \<Rightarrow> EditorEvent \<Rightarrow> Editor" where
  "appendEvent e ev = e\<lparr>events := events e @ [ev]\<rparr>"

text \<open>The first three statements of \<open>processEvents\<close>: the events that were already
  there at the previous frame are dropped. Slicing beyond the length panics.\<close>

definition flushEvents :: "Editor \<Rightarrow> panic + Editor" where
  "flushEvents e =
     (if prevEvents e < 0 \<or> int (length (events e)) < prevEvents e then Inl SliceOutOfRange
      else (let n = int (length (events e)) - prevEvents e
            in Inr (e\<lparr>events := drop (nat (prevEvents e)) (events e), prevEvents := n\<rparr>)))"

subsection \<open>Contents\<close>

text \<open>\<open>strings.ReplaceAll(s, "\n", " ")\<close>: both strings are one byte long, so the
  replacement is byte by byte.\<close>

definition ReplaceAll_newline_space :: "string \<Rightarrow> string" where
  "ReplaceAll_newline_space s = map (\<lambda>c. if c = CHR 0x0A then CHR '' '' else c) s"

definition invalidate :: "Editor \<Rightarrow> Editor" where
  "invalidate e = e\<lparr>valid := False\<rparr>"

definition prepend :: "string \<Rightarrow> Editor \<Rightarrow> Editor" where
  "prepend s e =
     (let s' = (if SingleLine e then ReplaceAll_newline_space s else s);
          e1 = e\<lparr>rr := eb_prepend s' (rr e)\<rparr>;
          e2 = e1\<lparr>caret_xoff := 0\<rparr>
      in invalidate e2)"

definition SetText :: "string \<Rightarrow> Editor \<Rightarrow> Editor" where
  "SetText s e = prepend s (e\<lparr>rr := editBuffer_zero, caret_xoff := 0\<rparr>)"

definition Text_of :: "Editor \<Rightarrow> string" where
  "Text_of e = eb_String (rr e)"

subsection \<open>Scrolling\<close>

text \<open>\<open>scrollBounds\<close>: the rectangle starts as the zero rectangle; only a single-line
  editor with at least one line calls \<open>align\<close>, and a positive result is cut to 0.\<close>

definition scrollBounds :: "Editor \<Rightarrow> panic + Rectangle" where
  "scrollBounds e =
     (if SingleLine e then
        (case (if lines e \<noteq> [] then
                 (case align (Alignment e) (Width (lines e ! 0)) (X (viewSize e)) of
                    Inl p \<Rightarrow> Inl p
                  | Inr a \<Rightarrow> Inr (if Floor a > 0 then 0 else Floor a))
               else Inr 0) of
           Inl p \<Rightarrow> Inl p
         | Inr minx \<Rightarrow>
             Inr \<lparr>RMin = \<lparr>X = minx, Y = 0\<rparr>,
                  RMax = \<lparr>X = wrap_int (wrap_int (X (Size (dims e)) + minx) - X (viewSize e)),
                          Y = 0\<rparr>\<rparr>)
      else Inr \<lparr>RMin = zeroPoint,
                RMax = \<lparr>X = 0, Y = wrap_int (Y (Size (dims e)) - Y (viewSize e))\<rparr>\<rparr>)"

text \<open>\<open>scrollAbs\<close>: store the offset, then four clamps in the order of the source, the
  \<open>Max\<close> clamp of an axis before its \<open>Min\<close> clamp.\<close>

definition scrollAbs :: "int \<Rightarrow> int \<Rightarrow> Editor \<Rightarrow> panic + Editor" where
  "scrollAbs x y e =
     (let e0 = e\<lparr>scrollOff := \<lparr>X = x, Y = y\<rparr>\<rparr>
      in case scrollBounds e0 of
           Inl p \<Rightarrow> Inl p
         | Inr b \<Rightarrow>
             (let e1 = (if X (scrollOff e0) > X (RMax b)
                        then e0\<lparr>scrollOff := (scrollOff e0)\<lparr>X := X (RMax b)\<rparr>\<rparr> else e0);
                  e2 = (if X (scrollOff e1) < X (RMin b)
                        then e1\<lparr>scrollOff := (scrollOff e1)\<lparr>X := X (RMin b)\<rparr>\<rparr> else e1);
                  e3 = (if Y (scrollOff e2) > Y (RMax b)
                        then e2\<lparr>scrollOff := (scrollOff e2)\<lparr>Y := Y (RMax b)\<rparr>\<rparr> else e2);
                  e4 = (if Y (scrollOff e3) < Y (RMin b)
                        then e3\<lparr>scrollOff := (scrollOff e3)\<lparr>Y := Y (RMin b)\<rparr>\<rparr> else e3)
              in Inr e4))"

definition scrollRel :: "int \<Rightarrow> int \<Rightarrow> Editor \<Rightarrow> panic + Editor" where
  "scrollRel dx dy e =
     scrollAbs (wrap_int (X (scrollOff e) + dx)) (wrap_int (Y (scrollOff e) + dy)) e"

text \<open>The offset lies within a rectangle, in the sense of the scroll code: not below
  \<open>Min\<close>; not above \<open>Max\<close> where \<open>Min \<le> Max\<close>; equal to \<open>Min\<close> where the
  bounds are inverted.\<close>

definition clamped :: "int \<Rightarrow> int \<Rightarrow> int \<Rightarrow> bool" where
  "clamped lo hi v \<longleftrightarrow> lo \<le> v \<and> (lo \<le> hi \<longrightarrow> v \<le> hi) \<and> (hi < lo \<longrightarrow> v = lo)"

definition offsetInBounds :: "Editor \<Rightarrow> bool" where
  "offsetInBounds e =
     (case scrollBounds e of
        Inl p \<Rightarrow> False
      | Inr b \<Rightarrow> clamped (X (RMin b)) (X (RMax b)) (X (scrollOff e))
               \<and> clamped (Y (RMin b)) (Y (RMax b)) (Y (scrollOff e)))"

subsection \<open>Selecting with the mouse\<close>

definition sortPoints :: "Point \<Rightarrow> Point \<Rightarrow> Point \<times> Point" where
  "sortPoints a b = (if Less b a then (b, a) else (a, b))"

text \<open>Indexing and slicing as Go does them: out of range is a panic.\<close>

definition goIndex :: "'a list \<Rightarrow> int \<Rightarrow> panic + 'a" where
  "goIndex xs i = (if 0 \<le> i \<and> i < int (length xs) then Inr (xs ! nat i) else Inl IndexOutOfRange)"

definition sliceBetween :: "string \<Rightarrow> int \<Rightarrow> int \<Rightarrow> panic + string" where
  "sliceBetween s a b =
     (if 0 \<le> a \<and> a \<le> b \<and> b \<le> int (length s) then Inr (take (nat b - nat a) (drop (nat a) s))
      else Inl SliceOutOfRange)"

definition sliceFrom :: "string \<Rightarrow> int \<Rightarrow> panic + string" where
  "sliceFrom s a = (if 0 \<le> a \<and> a \<le> int (length s) then Inr (drop (nat a) s) else Inl SliceOutOfRange)"

definition sliceTo :: "string \<Rightarrow> int \<Rightarrow> panic + string" where
  "sliceTo s b = (if 0 \<le> b \<and> b \<le> int (length s) then Inr (take (nat b) s) else Inl SliceOutOfRange)"

definition andThen :: "panic + 'a \<Rightarrow> ('a \<Rightarrow> panic + 'b) \<Rightarrow> panic + 'b" where
  "andThen m f = (case m of Inl p \<Rightarrow> Inl p | Inr v \<Rightarrow> f v)"

text \<open>The loop that writes the whole lines strictly between the first and the last.\<close>

function middleLines :: "Line list \<Rightarrow> int \<Rightarrow> int \<Rightarrow> string \<Rightarrow> panic + string" where
  "middleLines ls i endY acc =
     (if i < endY then
        andThen (goIndex ls i) (\<lambda>ln. middleLines ls (i + 1) endY (acc @ Text (Layout ln)))
      else Inr acc)"
  by pat_completeness auto
termination
  by (relation "measure (\<lambda>(ls, i, endY, acc). nat (endY - i))") simp_all

declare middleLines.simps [simp del]

text \<open>"Grab the selected text", for sorted end points \<open>s\<close> and \<open>e\<close>.\<close>

definition selectionText :: "Line list \<Rightarrow> Point \<Rightarrow> Point \<Rightarrow> panic + string" where
  "selectionText ls s e =
     (if Y s = Y e then
        andThen (goIndex ls (Y s)) (\<lambda>ln. sliceBetween (Text (Layout ln)) (X s) (X e))
      else
        andThen (goIndex ls (Y s)) (\<lambda>l0.
        andThen (sliceFrom (Text (Layout l0)) (X s)) (\<lambda>t0.
        andThen (middleLines ls (Y s + 1) (Y e) t0) (\<lambda>t1.
        andThen (goIndex ls (Y e)) (\<lambda>l2.
        andThen (sliceTo (Text (Layout l2)) (X e)) (\<lambda>t2. Inr (t1 @ t2)))))))"

text \<open>
  The \<open>Release\<close> case of a mouse drag in \<open>processPointer\<close>, from the assignment of
  \<open>e.endDrag\<close> on: the caret is where \<open>moveCoord\<close> has put it. The \<open>break\<close> leaves
  the case.
\<close>

definition releaseSelection :: "Editor \<Rightarrow> panic + Editor" where
  "releaseSelection e =
     (let e1 = e\<lparr>endDrag := \<lparr>X = caret_col e, Y = caret_line e\<rparr>, caret_scroll := True,
                   dragging := False\<rparr>
      in if startDrag e1 = endDrag e1 then Inr e1
         else (case sortPoints (startDrag e1) (endDrag e1) of
                 (a, b) \<Rightarrow>
                   (let e2 = e1\<lparr>startDrag := a, endDrag := b\<rparr>
                    in andThen (selectionText (lines e2) (startDrag e2) (endDrag e2))
                         (\<lambda>selection.
                            if selection \<noteq> [] then Inr (appendEvent e2 (SelectEvent selection))
                            else Inr e2))))"

text \<open>
  The whole case. \<open>moveCoord\<close> moves the caret to the rune nearest to the pointer; it
  works on the shaper's lines through the edit buffer, and is a parameter here: any
  function from the pointer position and the editor to the editor it leaves, or a panic.
  A release with no drag under way is skipped.
\<close>

definition dragRelease :: "(Point \<Rightarrow> Editor \<Rightarrow> panic + Editor) \<Rightarrow> Point \<Rightarrow> Editor
    \<Rightarrow> panic + Editor" where
  "dragRelease moveCoord p e =
     (if \<not> dragging e then Inr e else andThen (moveCoord p e) releaseSelection)"

definition lineText :: "Line list \<Rightarrow> nat \<Rightarrow> string" where
  "lineText ls i = Text (Layout (ls ! i))"

text \<open>
  What the slices of the source take between two points \<open>s \<le> e\<close>, the columns
  being used as byte offsets into the text of their lines.
\<close>

definition byteSlices :: "Line list \<Rightarrow> Point \<Rightarrow> Point \<Rightarrow> string" where
  "byteSlices ls s e =
     (if Y s = Y e then take (nat (X e) - nat (X s)) (drop (nat (X s)) (lineText ls (nat (Y s))))
      else drop (nat (X s)) (lineText ls (nat (Y s)))
           @ concat (map (lineText ls) [nat (Y s) + 1 ..< nat (Y e)])
           @ take (nat (X e)) (lineText ls (nat (Y e))))"

text \<open>
  What the claim says is selected between two points \<open>s \<le> e\<close>. A column counts
  runes, as the caret's column does (\<open>col is the caret column measured in runes\<close>)
  and as \<open>Next\<close> counts them for the highlight: \<open>runeOffset t k\<close> is the byte at
  which the rune of column \<open>k\<close> starts in the text \<open>t\<close> (the end of the text for a
  column beyond it). On one line the selected text runs from the start column to the end
  column; on several lines it is the first line from the start column, the whole lines
  strictly between, and the last line up to the end column.
\<close>

fun runeOffset :: "string \<Rightarrow> nat \<Rightarrow> nat" where
  "runeOffset t 0 = 0"
| "runeOffset t (Suc k) =
     (if t = [] then 0 else utf8_size t + runeOffset (drop (utf8_size t) t) k)"

definition between :: "Line list \<Rightarrow> Point \<Rightarrow> Point \<Rightarrow> string" where
  "between ls s e =
     (let ts = lineText ls (nat (Y s));
          te = lineText ls (nat (Y e));
          a = runeOffset ts (nat (X s));
          b = runeOffset te (nat (X e))
      in if Y s = Y e then take (b - a) (drop a ts)
         else drop a ts @ concat (map (lineText ls) [nat (Y s) + 1 ..< nat (Y e)]) @ take b te)"

text \<open>A text of one-byte runes: every byte is below \<open>0x80\<close>.\<close>

definition singleByte :: "string \<Rightarrow> bool" where
  "singleByte t \<longleftrightarrow> list_all (\<lambda>c. (of_char c :: nat) < 0x80) t"

text \<open>The points between which the slices of the source are within range.\<close>

definition selectable :: "Line list \<Rightarrow> Point \<Rightarrow> Point \<Rightarrow> bool" where
  "selectable ls s e \<longleftrightarrow>
     0 \<le> Y s \<and> Y e < int (length ls) \<and> 0 \<le> X s
     \<and> X e \<le> int (length (lineText ls (nat (Y e))))
     \<and> (if Y s = Y e then X s \<le> X e
        else 0 \<le> X e \<and> X s \<le> int (length (lineText ls (nat (Y s)))))"

definition caretPoint :: "Editor \<Rightarrow> Point" where
  "caretPoint e = \<lparr>X = caret_col e, Y = caret_line e\<rparr>"

subsection \<open>Laying out the editor\<close>




section \<open>The mask reader\<close>

text \<open>
  A rune is an \<open>int32\<close>, modelled as \<open>int\<close>; a byte is an \<open>8 word\<close>.
  \<open>utf8.EncodeRune\<close> of the standard library writes one to four bytes; a negative
  rune, one beyond \<open>0x10FFFF\<close> or a surrogate is encoded as \<open>U+FFFD\<close>.
\<close>

type_synonym byte = "8 word"

definition utf8_EncodeRune :: "int \<Rightarrow> byte list" where
  "utf8_EncodeRune r =
     (if 0 \<le> r \<and> r \<le> 0x7F then [word_of_int r]
      else if 0 \<le> r \<and> r \<le> 0x7FF then
        [0xC0 OR word_of_int (r div 64), 0x80 OR (word_of_int r AND 0x3F)]
      else (let r' = (if r < 0 \<or> 0x10FFFF < r \<or> (0xD800 \<le> r \<and> r \<le> 0xDFFF)
                      then 0xFFFD else r)
            in if r' \<le> 0xFFFF then
                 [0xE0 OR word_of_int (r' div 4096),
                  0x80 OR (word_of_int (r' div 64) AND 0x3F),
                  0x80 OR (word_of_int r' AND 0x3F)]
               else
                 [0xF0 OR word_of_int (r' div 262144),
                  0x80 OR (word_of_int (r' div 4096) AND 0x3F),
                  0x80 OR (word_of_int (r' div 64) AND 0x3F),
                  0x80 OR (word_of_int r' AND 0x3F)]))"

text \<open>
  \<open>mask\<close> and \<open>overflow\<close> are slices. \<open>Reset\<close> makes \<open>mask\<close> a slice of the
  reader's own array \<open>maskBuf\<close>, and \<open>Read\<close> keeps in \<open>overflow\<close> the rest of the
  slice it copied from, so both may share \<open>maskBuf\<close>: a slice is either a window
  \<open>maskBuf[lo:hi]\<close> or bytes of its own (\<open>nil\<close>, or the array of
  \<open>[]byte{'\n'}\<close>).
\<close>

datatype slice = InMaskBuf nat nat | Own "byte list"

text \<open>The underlying \<open>io.RuneReader\<close> is the list of the runes it still has;
  \<open>ReadRune\<close> fails with \<open>io.EOF\<close> when the list is empty.\<close>

record maskReader =
  mr_rr :: "int list"
  maskBuf :: "byte list"
  mr_mask :: slice
  overflow :: slice

definition slice_bytes :: "maskReader \<Rightarrow> slice \<Rightarrow> byte list" where
  "slice_bytes m sl =
     (case sl of InMaskBuf lo hi \<Rightarrow> take (hi - lo) (drop lo (maskBuf m)) | Own bs \<Rightarrow> bs)"

text \<open>\<open>sl[n:]\<close>\<close>

definition slice_from :: "nat \<Rightarrow> slice \<Rightarrow> slice" where
  "slice_from n sl = (case sl of InMaskBuf lo hi \<Rightarrow> InMaskBuf (lo + n) hi | Own bs \<Rightarrow> Own (drop n bs))"

text \<open>\<open>Reset\<close>: \<open>EncodeRune\<close> overwrites the first \<open>n\<close> bytes of \<open>maskBuf\<close>;
  \<open>overflow\<close> is not touched.\<close>

definition Reset :: "int list \<Rightarrow> int \<Rightarrow> maskReader \<Rightarrow> maskReader" where
  "Reset r mr m =
     (let enc = utf8_EncodeRune mr;
          n = length enc
      in m\<lparr>mr_rr := r, maskBuf := enc @ drop n (maskBuf m), mr_mask := InMaskBuf 0 n\<rparr>)"

text \<open>
  The loop of \<open>Read\<close>. The buffer \<open>b\<close> is its remaining length \<open>k\<close>; \<open>acc\<close> are
  the bytes written so far (\<open>n\<close> is their number). The result is the bytes written,
  whether \<open>err\<close> is set, and the reader.
\<close>

lemma slice_bytes_from:
  "slice_bytes m (slice_from n sl) = drop n (slice_bytes m sl)"
  by (cases sl) (simp_all add: slice_bytes_def slice_from_def drop_take add.commute)

lemma slice_bytes_overflow_update:
  "slice_bytes (m\<lparr>overflow := s\<rparr>) sl = slice_bytes m sl"
  by (cases sl) (simp_all add: slice_bytes_def)

lemma slice_bytes_rr_update:
  "slice_bytes (m\<lparr>mr_rr := s\<rparr>) sl = slice_bytes m sl"
  by (cases sl) (simp_all add: slice_bytes_def)

function Read_loop :: "nat \<Rightarrow> maskReader \<Rightarrow> byte list \<Rightarrow> byte list \<times> bool \<times> maskReader" where
  "Read_loop k m acc =
     (if k = 0 then (acc, False, m)
      else if length (slice_bytes m (overflow m)) > 0 then
        (let replacement = overflow m;
             nn = min k (length (slice_bytes m replacement))
         in Read_loop (k - nn) (m\<lparr>overflow := slice_from nn replacement\<rparr>)
              (acc @ take nn (slice_bytes m replacement)))
      else (case mr_rr m of
              [] \<Rightarrow> (acc, True, m)
            | r # rs \<Rightarrow>
                (let m1 = m\<lparr>mr_rr := rs\<rparr>;
                     replacement = (if r = 0x0A then Own [0x0A] else mr_mask m1);
                     nn = min k (length (slice_bytes m1 replacement))
                 in Read_loop (k - nn) (m1\<lparr>overflow := slice_from nn replacement\<rparr>)
                      (acc @ take nn (slice_bytes m1 replacement)))))"
  by pat_completeness auto
termination
  by (relation "measures [\<lambda>(k, m, acc). length (mr_rr m),
                          \<lambda>(k, m, acc). length (slice_bytes m (overflow m))]")
     (simp_all add: slice_bytes_from slice_bytes_overflow_update slice_bytes_rr_update)

declare Read_loop.simps [simp del]

definition Read :: "nat \<Rightarrow> maskReader \<Rightarrow> byte list \<times> bool \<times> maskReader" where
  "Read k m = Read_loop k m []"

text \<open>Successive calls of \<open>Read\<close> with buffers of the given lengths: what each call
  wrote and whether it returned an error.\<close>

fun Reads :: "nat list \<Rightarrow> maskReader \<Rightarrow> (byte list \<times> bool) list" where
  "Reads [] m = []"
| "Reads (k # ks) m = (case Read k m of (out, err, m') \<Rightarrow> (out, err) # Reads ks m')"

text \<open>The bytes a reader has still to deliver: its overflow, then one replacement
  for every rune left in the underlying reader.\<close>

definition replacementBytes :: "maskReader \<Rightarrow> int \<Rightarrow> byte list" where
  "replacementBytes m r = (if r = 0x0A then [0x0A] else slice_bytes m (mr_mask m))"

definition pending :: "maskReader \<Rightarrow> byte list" where
  "pending m = slice_bytes m (overflow m) @ concat (map (replacementBytes m) (mr_rr m))"

text \<open>What the claim says the masked text is: the mask's encoding for every rune but
  the newline, which stays.\<close>

definition masked :: "int \<Rightarrow> int list \<Rightarrow> byte list" where
  "masked mr rs = concat (map (\<lambda>r. if r = 0x0A then [0x0A] else utf8_EncodeRune mr) rs)"

definition sameShape :: "int list \<Rightarrow> int list \<Rightarrow> bool" where
  "sameShape rs1 rs2 \<longleftrightarrow> map (\<lambda>r. r = 0x0A) rs1 = map (\<lambda>r. r = 0x0A) rs2"

definition maskReader_zero :: maskReader where
  "maskReader_zero = \<lparr>mr_rr = [], maskBuf = [0, 0, 0, 0], mr_mask = Own [], overflow = Own []\<rparr>"

text \<open>Cutting a byte stream into the pieces that buffers of the given lengths take from
  it; the flag says that the stream ended before the buffer was full.\<close>

fun chunks :: "nat list \<Rightarrow> byte list \<Rightarrow> (byte list \<times> bool) list" where
  "chunks [] p = []"
| "chunks (k # ks) p = (take k p, length p < k) # chunks ks (drop k p)"

text \<open>What one run of the loop of \<open>Read\<close> does to the pending bytes.\<close>

definition Read_spec :: "nat \<Rightarrow> maskReader \<Rightarrow> byte list \<Rightarrow> byte list \<times> bool \<times> maskReader \<Rightarrow> bool" where
  "Read_spec k m acc res \<longleftrightarrow>
     fst res = acc @ take k (pending m)
     \<and> fst (snd res) = (length (pending m) < k)
     \<and> pending (snd (snd res)) = drop k (pending m)
     \<and> maskBuf (snd (snd res)) = maskBuf m
     \<and> mr_mask (snd (snd res)) = mr_mask m"

section \<open>The JNI shim (os_android.c)\<close>

text \<open>
  Every function of the file calls one entry of a JNI function table through the
  \<open>JavaVM *\<close> or \<open>JNIEnv *\<close> it is given. Pointers and object handles are
  addresses; \<open>jint\<close> and \<open>jsize\<close> are 32-bit integers and a \<open>jfloat\<close> is its 32 bits.
  The Java side is a state \<open>'w\<close> that a table entry may read and change: an entry
  takes its C arguments and the state, and returns its C result and the new state
  (the new state alone for a \<open>void\<close> entry). The tables themselves belong to the
  platform: \<open>vm_functions\<close> and \<open>env_functions\<close> stand for the loads \<open>*vm\<close> and
  \<open>*env\<close>.
\<close>

type_synonym ptr = "64 word"
type_synonym jint = "32 word"
type_synonym jfloat = "32 word"

record 'w JNIInvokeInterface =
  GetEnv :: "ptr \<Rightarrow> ptr \<Rightarrow> jint \<Rightarrow> 'w \<Rightarrow> jint \<times> 'w"
  AttachCurrentThread :: "ptr \<Rightarrow> ptr \<Rightarrow> ptr \<Rightarrow> 'w \<Rightarrow> jint \<times> 'w"
  DetachCurrentThread :: "ptr \<Rightarrow> 'w \<Rightarrow> jint \<times> 'w"

record 'w JNINativeInterface =
  GetJavaVM :: "ptr \<Rightarrow> ptr \<Rightarrow> 'w \<Rightarrow> jint \<times> 'w"
  NewGlobalRef :: "ptr \<Rightarrow> ptr \<Rightarrow> 'w \<Rightarrow> ptr \<times> 'w"
  DeleteGlobalRef :: "ptr \<Rightarrow> ptr \<Rightarrow> 'w \<Rightarrow> 'w"
  GetObjectClass :: "ptr \<Rightarrow> ptr \<Rightarrow> 'w \<Rightarrow> ptr \<times> 'w"
  GetMethodID :: "ptr \<Rightarrow> ptr \<Rightarrow> ptr \<Rightarrow> ptr \<Rightarrow> 'w \<Rightarrow> ptr \<times> 'w"
  GetStaticMethodID :: "ptr \<Rightarrow> ptr \<Rightarrow> ptr \<Rightarrow> ptr \<Rightarrow> 'w \<Rightarrow> ptr \<times> 'w"
  CallFloatMethod :: "ptr \<Rightarrow> ptr \<Rightarrow> ptr \<Rightarrow> 'w \<Rightarrow> jfloat \<times> 'w"
  CallIntMethod :: "ptr \<Rightarrow> ptr \<Rightarrow> ptr \<Rightarrow> 'w \<Rightarrow> jint \<times> 'w"
  CallVoidMethodA :: "ptr \<Rightarrow> ptr \<Rightarrow> ptr \<Rightarrow> ptr \<Rightarrow> 'w \<Rightarrow> 'w"
  GetByteArrayElements :: "ptr \<Rightarrow> ptr \<Rightarrow> ptr \<Rightarrow> 'w \<Rightarrow> ptr \<times> 'w"
  ReleaseByteArrayElements :: "ptr \<Rightarrow> ptr \<Rightarrow> ptr \<Rightarrow> jint \<Rightarrow> 'w \<Rightarrow> 'w"
  GetArrayLength :: "ptr \<Rightarrow> ptr \<Rightarrow> 'w \<Rightarrow> jint \<times> 'w"
  NewString :: "ptr \<Rightarrow> ptr \<Rightarrow> jint \<Rightarrow> 'w \<Rightarrow> ptr \<times> 'w"

record 'w jni_tables =
  vm_functions :: "ptr \<Rightarrow> 'w JNIInvokeInterface"
  env_functions :: "ptr \<Rightarrow> 'w JNINativeInterface"

text \<open>\<open>NULL\<close>, and \<open>JNI_ABORT\<close> of jni.h.\<close>

definition NULL :: ptr where "NULL = 0"
definition JNI_ABORT :: jint where "JNI_ABORT = 2"

definition gio_jni_GetEnv :: "'w jni_tables \<Rightarrow> ptr \<Rightarrow> ptr \<Rightarrow> jint \<Rightarrow> 'w \<Rightarrow> jint \<times> 'w" where
  "gio_jni_GetEnv t vm env version w = GetEnv (vm_functions t vm) vm env version w"

definition gio_jni_GetJavaVM :: "'w jni_tables \<Rightarrow> ptr \<Rightarrow> ptr \<Rightarrow> 'w \<Rightarrow> jint \<times> 'w" where
  "gio_jni_GetJavaVM t env jvm w = GetJavaVM (env_functions t env) env jvm w"

definition gio_jni_AttachCurrentThread ::
    "'w jni_tables \<Rightarrow> ptr \<Rightarrow> ptr \<Rightarrow> ptr \<Rightarrow> 'w \<Rightarrow> jint \<times> 'w" where
  "gio_jni_AttachCurrentThread t vm p_env thr_args w =
     AttachCurrentThread (vm_functions t vm) vm p_env thr_args w"

definition gio_jni_DetachCurrentThread :: "'w jni_tables \<Rightarrow> ptr \<Rightarrow> 'w \<Rightarrow> jint \<times> 'w" where
  "gio_jni_DetachCurrentThread t vm w = DetachCurrentThread (vm_functions t vm) vm w"

definition gio_jni_NewGlobalRef :: "'w jni_tables \<Rightarrow> ptr \<Rightarrow> ptr \<Rightarrow> 'w \<Rightarrow> ptr \<times> 'w" where
  "gio_jni_NewGlobalRef t env obj w = NewGlobalRef (env_functions t env) env obj w"

definition gio_jni_DeleteGlobalRef :: "'w jni_tables \<Rightarrow> ptr \<Rightarrow> ptr \<Rightarrow> 'w \<Rightarrow> 'w" where
  "gio_jni_DeleteGlobalRef t env obj w = DeleteGlobalRef (env_functions t env) env obj w"

definition gio_jni_GetObjectClass :: "'w jni_tables \<Rightarrow> ptr \<Rightarrow> ptr \<Rightarrow> 'w \<Rightarrow> ptr \<times> 'w" where
  "gio_jni_GetObjectClass t env obj w = GetObjectClass (env_functions t env) env obj w"

definition gio_jni_GetMethodID ::
    "'w jni_tables \<Rightarrow> ptr \<Rightarrow> ptr \<Rightarrow> ptr \<Rightarrow> ptr \<Rightarrow> 'w \<Rightarrow> ptr \<times> 'w" where
  "gio_jni_GetMethodID t env clazz name sig w =
     GetMethodID (env_functions t env) env clazz name sig w"

definition gio_jni_GetStaticMethodID ::
    "'w jni_tables \<Rightarrow> ptr \<Rightarrow> ptr \<Rightarrow> ptr \<Rightarrow> ptr \<Rightarrow> 'w \<Rightarrow> ptr \<times> 'w" where
  "gio_jni_GetStaticMethodID t env clazz name sig w =
     GetStaticMethodID (env_functions t env) env clazz name sig w"

definition gio_jni_CallFloatMethod ::
    "'w jni_tables \<Rightarrow> ptr \<Rightarrow> ptr \<Rightarrow> ptr \<Rightarrow> 'w \<Rightarrow> jfloat \<times> 'w" where
  "gio_jni_CallFloatMethod t env obj methodID w =
     CallFloatMethod (env_functions t env) env obj methodID w"

definition gio_jni_CallIntMethod ::
    "'w jni_tables \<Rightarrow> ptr \<Rightarrow> ptr \<Rightarrow> ptr \<Rightarrow> 'w \<Rightarrow> jint \<times> 'w" where
  "gio_jni_CallIntMethod t env obj methodID w =
     CallIntMethod (env_functions t env) env obj methodID w"

definition gio_jni_CallVoidMethod ::
    "'w jni_tables \<Rightarrow> ptr \<Rightarrow> ptr \<Rightarrow> ptr \<Rightarrow> ptr \<Rightarrow> 'w \<Rightarrow> 'w" where
  "gio_jni_CallVoidMethod t env obj methodID args w =
     CallVoidMethodA (env_functions t env) env obj methodID args w"

definition gio_jni_GetByteArrayElements ::
    "'w jni_tables \<Rightarrow> ptr \<Rightarrow> ptr \<Rightarrow> 'w \<Rightarrow> ptr \<times> 'w" where
  "gio_jni_GetByteArrayElements t env arr w =
     GetByteArrayElements (env_functions t env) env arr NULL w"

definition gio_jni_ReleaseByteArrayElements ::
    "'w jni_tables \<Rightarrow> ptr \<Rightarrow> ptr \<Rightarrow> ptr \<Rightarrow> 'w \<Rightarrow> 'w" where
  "gio_jni_ReleaseByteArrayElements t env arr bytes w =
     ReleaseByteArrayElements (env_functions t env) env arr bytes JNI_ABORT w"

definition gio_jni_GetArrayLength :: "'w jni_tables \<Rightarrow> ptr \<Rightarrow> ptr \<Rightarrow> 'w \<Rightarrow> jint \<times> 'w" where
  "gio_jni_GetArrayLength t env arr w = GetArrayLength (env_functions t env) env arr w"

definition gio_jni_NewString ::
    "'w jni_tables \<Rightarrow> ptr \<Rightarrow> ptr \<Rightarrow> jint \<Rightarrow> 'w \<Rightarrow> ptr \<times> 'w" where
  "gio_jni_NewString t env unicodeChars len w =
     NewString (env_functions t env) env unicodeChars len w"

text \<open>
  What the claim says a pass-through is, for a table entry \<open>f\<close> picked from the table
  of the first argument: the call of \<open>f\<close> on that table, the arguments and the state,
  nothing else.
\<close>

definition via_vm :: "'w jni_tables \<Rightarrow> ('w JNIInvokeInterface \<Rightarrow> ptr \<Rightarrow> 'a) \<Rightarrow> ptr \<Rightarrow> 'a" where
  "via_vm t f vm = f (vm_functions t vm) vm"

definition via_env :: "'w jni_tables \<Rightarrow> ('w JNINativeInterface \<Rightarrow> ptr \<Rightarrow> 'a) \<Rightarrow> ptr \<Rightarrow> 'a" where
  "via_env t f env = f (env_functions t env) env"

section \<open>Concrete values\<close>

text \<open>An editor at rest, for evaluating the functions on concrete inputs.\<close>

definition zeroDims :: Dimensions where
  "zeroDims = \<lparr>Size = zeroPoint, Baseline = 0\<rparr>"

definition editor0 :: Editor where
  "editor0 = \<lparr>Alignment = Start, SingleLine = False, Submit = False, Mask = 0,
     rr = editBuffer_zero, valid = False, lines = [], dims = zeroDims, viewSize = zeroPoint,
     caret_scroll = False, caret_xoff = 0, caret_line = 0, caret_col = 0, caret_x = 0,
     caret_y = 0, startDrag = zeroPoint, endDrag = zeroPoint, dragging = False,
     scrollOff = zeroPoint, events = [], prevEvents = 0\<rparr>"

text \<open>A line with the two runes \<open>ab\<close>, ten pixels each, and an iterator at its start.\<close>

definition line_ab :: Line where
  "line_ab = \<lparr>Layout = \<lparr>Text = ''ab'', Advances = [640, 640]\<rparr>, Width = 1280, Ascent = 640,
     Descent = 192, Bounds = \<lparr>BMin = \<lparr>FX = 0, FY = - 640\<rparr>, BMax = \<lparr>FX = 1280, FY = 192\<rparr>\<rparr>\<rparr>"





definition caretTo :: "Point \<Rightarrow> Editor \<Rightarrow> panic + Editor" where
  "caretTo p e = Inr (e\<lparr>caret_col := X p, caret_line := Y p\<rparr>)"

text \<open>The line \<open>e-acute a\<close>: two runes, the first of two bytes, and an editor on which
  a drag began behind the \<open>a\<close>.\<close>

definition line_ea :: Line where
  "line_ea = line_ab\<lparr>Layout := \<lparr>Text = [CHR 0xC3, CHR 0xA9, CHR ''a''],
     Advances = [640, 640]\<rparr>\<rparr>"

definition editor_ea :: Editor where
  "editor_ea = editor0\<lparr>lines := [line_ea], valid := True, startDrag := \<lparr>X = 2, Y = 0\<rparr>,
     endDrag := \<lparr>X = 2, Y = 0\<rparr>, dragging := True\<rparr>"


section \<open>Theorems\<close>

subsection \<open>What align returns\<close>



subsection \<open>The event queue is drained\<close>

lemma events_appended:
  "events (foldl appendEvent e evs) = events e @ evs"
  by (induction evs arbitrary: e) (simp_all add: appendEvent_def)

text \<open>
  C7. \<open>Events\<close> returns the queued events, each once and in the order in which they were
  appended, and leaves the queue empty with \<open>prevEvents\<close> reset: a second call right
  after it returns the empty list, and the flush at the start of the next
  \<open>processEvents\<close> finds nothing to drop.
\<close>

theorem Events_drains:
  "fst (Events (foldl appendEvent e evs)) = events e @ evs
   \<and> events (snd (Events e)) = []
   \<and> prevEvents (snd (Events e)) = 0
   \<and> fst (Events (snd (Events e))) = []
   \<and> flushEvents (snd (Events e)) = Inr (snd (Events e))"
  by (simp add: Events_def events_appended flushEvents_def)

theorem Events_drains_witness:
  "fst (Events (appendEvent (appendEvent editor0 ChangeEvent) (SelectEvent ''ab'')))
     = [ChangeEvent, SelectEvent ''ab'']
   \<and> fst (Events (snd (Events editor0))) = []"
  using Events_drains [of editor0 "[ChangeEvent, SelectEvent ''ab'']"]
  by (simp add: editor0_def)

subsection \<open>Text set and read back\<close>

text \<open>
  C1, as claimed: \<open>SetText\<close> followed by \<open>Text\<close> returns the string unchanged in every
  configuration. A single-line editor given a string with a newline returns a space in
  its place.
\<close>

theorem SetText_Text_counterexample:
  "Text_of (SetText [CHR ''a'', CHR 0x0A, CHR ''b''] (editor0\<lparr>SingleLine := True\<rparr>))
     = ''a b''
   \<and> Text_of (SetText [CHR ''a'', CHR 0x0A, CHR ''b''] (editor0\<lparr>SingleLine := True\<rparr>))
     \<noteq> [CHR ''a'', CHR 0x0A, CHR ''b'']"
  by (simp add: Text_of_def SetText_def prepend_def invalidate_def eb_prepend_def
      eb_String_def editBuffer_zero_def editor0_def ReplaceAll_newline_space_def)

lemma ReplaceAll_newline_space_id:
  "ReplaceAll_newline_space s = s \<longleftrightarrow> CHR 0x0A \<notin> set s"
  unfolding ReplaceAll_newline_space_def
  by (induction s) auto

text \<open>
  C1, amended. \<open>SetText s\<close> followed by \<open>Text\<close> returns \<open>s\<close> when \<open>SingleLine\<close> is
  unset, whatever the mask; when \<open>SingleLine\<close> is set it returns \<open>s\<close> with every newline
  byte replaced by a space, which is \<open>s\<close> itself exactly when \<open>s\<close> has no newline.
\<close>

theorem SetText_Text:
  "Text_of (SetText s e) = (if SingleLine e then ReplaceAll_newline_space s else s)
   \<and> (Text_of (SetText s e) = s \<longleftrightarrow> \<not> SingleLine e \<or> CHR 0x0A \<notin> set s)"
  by (simp add: Text_of_def SetText_def prepend_def invalidate_def eb_prepend_def
      eb_String_def editBuffer_zero_def Let_def ReplaceAll_newline_space_id)

theorem SetText_Text_witness:
  "Text_of (SetText ''ab'' (editor0\<lparr>SingleLine := True, Mask := 42\<rparr>)) = ''ab''
   \<and> Text_of (SetText [CHR ''a'', CHR 0x0A] (editor0\<lparr>Mask := 42\<rparr>)) = [CHR ''a'', CHR 0x0A]"
  using SetText_Text [of "''ab''" "editor0\<lparr>SingleLine := True, Mask := 42\<rparr>"]
    SetText_Text [of "[CHR ''a'', CHR 0x0A]" "editor0\<lparr>Mask := 42\<rparr>"]
  by (simp add: editor0_def ReplaceAll_newline_space_def)

subsection \<open>The scroll offset stays within the scroll bounds\<close>

lemma scrollBounds_scrollOff:
  "scrollBounds (e\<lparr>scrollOff := p\<rparr>) = scrollBounds e"
  by (simp add: scrollBounds_def cong: sum.case_cong)

lemma scrollBounds_Inl:
  "scrollBounds e = Inl p \<longleftrightarrow>
     p = UnknownAlignment \<and> SingleLine e \<and> lines e \<noteq> [] \<and> \<not> alignmentKnown (Alignment e)"
  by (auto simp: scrollBounds_def align_def alignmentKnown_def Let_def split: sum.splits)

lemma scrollAbs_Inl:
  "scrollAbs x y e = Inl p \<longleftrightarrow> scrollBounds e = Inl p"
  by (simp add: scrollAbs_def Let_def scrollBounds_scrollOff split: sum.splits)

lemma scrollAbs_Inr:
  assumes "scrollAbs x y e = Inr e'"
  shows "offsetInBounds e'"
proof -
  from assms obtain b where b: "scrollBounds e = Inr b"
    by (cases "scrollBounds e") (simp_all add: scrollAbs_def Let_def scrollBounds_scrollOff)
  from assms b have off: "scrollOff e' =
      \<lparr>X = max (X (RMin b)) (min (X (RMax b)) x), Y = max (Y (RMin b)) (min (Y (RMax b)) y)\<rparr>"
    and rest: "\<exists>p. e' = e\<lparr>scrollOff := p\<rparr>"
    by (auto simp: scrollAbs_def Let_def scrollBounds_scrollOff max_def min_def)
  from rest b have "scrollBounds e' = Inr b"
    by (auto simp: scrollBounds_scrollOff)
  with off show ?thesis
    by (simp add: offsetInBounds_def clamped_def max_def min_def)
qed

text \<open>
  C4. After \<open>scrollAbs x y\<close>, and so after \<open>scrollRel dx dy\<close>, the scroll offset is on
  each axis at least the \<open>Min\<close> of the scroll bounds, at most their \<open>Max\<close> where
  \<open>Min \<le> Max\<close>, and equal to \<open>Min\<close> where the bounds are inverted. The only way for
  either call not to return is the panic of \<open>align\<close> inside \<open>scrollBounds\<close>, on a
  single-line editor with a line and an undefined alignment.
\<close>

theorem scrollAbs_within_bounds:
  "(case scrollAbs x y e of
      Inr e' \<Rightarrow> offsetInBounds e'
    | Inl p \<Rightarrow> SingleLine e \<and> lines e \<noteq> [] \<and> \<not> alignmentKnown (Alignment e))
   \<and> (case scrollRel dx dy e of
      Inr e' \<Rightarrow> offsetInBounds e'
    | Inl p \<Rightarrow> SingleLine e \<and> lines e \<noteq> [] \<and> \<not> alignmentKnown (Alignment e))"
  by (auto simp: scrollRel_def scrollAbs_Inr scrollAbs_Inl scrollBounds_Inl split: sum.splits)

theorem scrollAbs_within_bounds_witness:
  "scrollOff (projr (scrollAbs 5 200
      (editor0\<lparr>dims := \<lparr>Size = \<lparr>X = 40, Y = 100\<rparr>, Baseline = 0\<rparr>,
               viewSize := \<lparr>X = 40, Y = 30\<rparr>\<rparr>))) = \<lparr>X = 0, Y = 70\<rparr>
   \<and> offsetInBounds (projr (scrollAbs 5 200
      (editor0\<lparr>dims := \<lparr>Size = \<lparr>X = 40, Y = 100\<rparr>, Baseline = 0\<rparr>,
               viewSize := \<lparr>X = 40, Y = 30\<rparr>\<rparr>)))"
  using scrollAbs_within_bounds [where x = 5 and y = 200 and dx = 0 and dy = 0 and
      e = "editor0\<lparr>dims := \<lparr>Size = \<lparr>X = 40, Y = 100\<rparr>, Baseline = 0\<rparr>,
               viewSize := \<lparr>X = 40, Y = 30\<rparr>\<rparr>"]
  by (simp add: scrollAbs_def scrollBounds_def editor0_def zeroPoint_def wrap_int_def
      signed_take_bit_eq_take_bit_minus Let_def)

subsection \<open>The mask reader\<close>

lemma Read_loop_zero:
  "Read_loop 0 m acc = (acc, False, m)"
  by (subst Read_loop.simps) simp

lemma Read_loop_overflow:
  assumes "0 < k" and "slice_bytes m (overflow m) \<noteq> []"
  shows "Read_loop k m acc =
    Read_loop (k - min k (length (slice_bytes m (overflow m))))
      (m\<lparr>overflow := slice_from (min k (length (slice_bytes m (overflow m)))) (overflow m)\<rparr>)
      (acc @ take (min k (length (slice_bytes m (overflow m)))) (slice_bytes m (overflow m)))"
  using assms by (subst Read_loop.simps) (simp add: Let_def)

lemma Read_loop_eof:
  assumes "0 < k" and "slice_bytes m (overflow m) = []" and "mr_rr m = []"
  shows "Read_loop k m acc = (acc, True, m)"
  using assms by (subst Read_loop.simps) simp

lemma Read_loop_rune:
  assumes "0 < k" and "slice_bytes m (overflow m) = []" and "mr_rr m = r # rs"
    and "rep = (if r = 0x0A then Own [0x0A] else mr_mask m)"
    and "nn = min k (length (slice_bytes m rep))"
  shows "Read_loop k m acc =
    Read_loop (k - nn) (m\<lparr>mr_rr := rs, overflow := slice_from nn rep\<rparr>)
      (acc @ take nn (slice_bytes m rep))"
  using assms
  by (subst Read_loop.simps) (simp add: Let_def slice_bytes_rr_update)

lemma replacementBytes_update:
  "replacementBytes (m\<lparr>overflow := s\<rparr>) = replacementBytes m"
  "replacementBytes (m\<lparr>mr_rr := rs\<rparr>) = replacementBytes m"
  by (simp_all add: replacementBytes_def fun_eq_iff slice_bytes_overflow_update
      slice_bytes_rr_update)

lemma pending_overflow:
  "pending (m\<lparr>overflow := slice_from n (overflow m)\<rparr>)
     = drop n (slice_bytes m (overflow m)) @ concat (map (replacementBytes m) (mr_rr m))"
  by (simp add: pending_def slice_bytes_from slice_bytes_overflow_update
      replacementBytes_update)

lemma pending_rune:
  "pending (m\<lparr>mr_rr := rs, overflow := slice_from n rep\<rparr>)
     = drop n (slice_bytes m rep) @ concat (map (replacementBytes m) rs)"
  by (simp add: pending_def slice_bytes_from slice_bytes_overflow_update
      slice_bytes_rr_update replacementBytes_update)

lemma Read_loop_pending:
  "Read_spec k m acc (Read_loop k m acc)"
proof (induction k m acc rule: Read_loop.induct)
  case (1 k m acc)
  show ?case
  proof (cases "k = 0")
    case True
    then show ?thesis by (simp add: Read_loop_zero Read_spec_def)
  next
    case k: False
    show ?thesis
    proof (cases "0 < length (slice_bytes m (overflow m))")
      case ov: True
      define nn where "nn = min k (length (slice_bytes m (overflow m)))"
      define m1 where "m1 = m\<lparr>overflow := slice_from nn (overflow m)\<rparr>"
      define acc1 where "acc1 = acc @ take nn (slice_bytes m (overflow m))"
      have ih: "Read_spec (k - nn) m1 acc1 (Read_loop (k - nn) m1 acc1)"
        unfolding nn_def m1_def acc1_def by (rule "1.IH"(1) [OF k ov refl refl])
      have eq: "Read_loop k m acc = Read_loop (k - nn) m1 acc1"
        unfolding nn_def m1_def acc1_def using k ov by (intro Read_loop_overflow) simp_all
      have p1: "pending m1 = drop nn (pending m)"
        unfolding m1_def pending_overflow by (simp add: pending_def nn_def)
      have f1: "maskBuf m1 = maskBuf m" "mr_mask m1 = mr_mask m"
        by (simp_all add: m1_def)
      have nn: "nn \<le> k" "nn \<le> length (pending m)"
        "take nn (slice_bytes m (overflow m)) = take nn (pending m)"
        by (simp_all add: nn_def pending_def)
      have t: "take nn (pending m) @ take (k - nn) (drop nn (pending m)) = take k (pending m)"
        using nn(1) by (metis le_add_diff_inverse take_add)
      from ih show ?thesis
        unfolding eq Read_spec_def p1 f1 acc1_def nn(3)
        using nn(1,2) t by auto
    next
      case ov: False
      then have ov0: "slice_bytes m (overflow m) = []" by simp
      show ?thesis
      proof (cases "mr_rr m")
        case Nil
        with k ov0 show ?thesis
          by (simp add: Read_loop_eof Read_spec_def pending_def)
      next
        case (Cons r rs)
        define m0 where "m0 = m\<lparr>mr_rr := rs\<rparr>"
        define rep where "rep = (if r = 0x0A then Own [0x0A] else mr_mask m0)"
        define nn where "nn = min k (length (slice_bytes m0 rep))"
        define m1 where "m1 = m0\<lparr>overflow := slice_from nn rep\<rparr>"
        define acc1 where "acc1 = acc @ take nn (slice_bytes m0 rep)"
        have ih: "Read_spec (k - nn) m1 acc1 (Read_loop (k - nn) m1 acc1)"
          unfolding nn_def m1_def acc1_def rep_def m0_def
          by (rule "1.IH"(2) [OF k ov Cons refl refl refl])
        have sb: "\<And>sl. slice_bytes m0 sl = slice_bytes m sl"
          by (simp add: m0_def slice_bytes_rr_update)
        have rep': "rep = (if r = 0x0A then Own [0x0A] else mr_mask m)"
          by (simp add: rep_def m0_def)
        have m1': "m1 = m\<lparr>mr_rr := rs, overflow := slice_from nn rep\<rparr>"
          by (simp add: m1_def m0_def)
        have eq: "Read_loop k m acc = Read_loop (k - nn) m1 acc1"
          unfolding m1' acc1_def sb
          using k ov0 Cons rep' by (intro Read_loop_rune) (simp_all add: nn_def sb)
        have rb: "slice_bytes m rep = replacementBytes m r"
          by (simp add: rep' slice_bytes_def replacementBytes_def)
        have pm: "pending m = slice_bytes m rep @ concat (map (replacementBytes m) rs)"
          by (simp add: pending_def ov0 Cons rb)
        have nn: "nn \<le> k" "nn \<le> length (slice_bytes m rep)"
          by (simp_all add: nn_def sb)
        have p1: "pending m1 = drop nn (pending m)"
          unfolding m1' pending_rune using nn(2) by (simp add: pm)
        have f1: "maskBuf m1 = maskBuf m" "mr_mask m1 = mr_mask m"
          by (simp_all add: m1')
        have tk: "take nn (slice_bytes m0 rep) = take nn (pending m)"
          using nn(2) by (simp add: sb pm)
        have nn2: "nn \<le> length (pending m)"
          using nn(2) by (simp add: pm)
        have t: "take nn (pending m) @ take (k - nn) (drop nn (pending m)) = take k (pending m)"
          using nn(1) by (metis le_add_diff_inverse take_add)
        from ih show ?thesis
          unfolding eq Read_spec_def p1 f1 acc1_def tk
          using nn(1) nn2 t by auto
      qed
    qed
  qed
qed

lemma Reads_chunks:
  "Reads ks m = chunks ks (pending m)"
proof (induction ks arbitrary: m)
  case Nil
  show ?case by simp
next
  case (Cons k ks)
  obtain out err m' where r: "Read k m = (out, err, m')"
    by (cases "Read k m") auto
  from Read_loop_pending [of k m "[]"] r
  have "out = take k (pending m)" "err = (length (pending m) < k)"
    "pending m' = drop k (pending m)"
    by (simp_all add: Read_def Read_spec_def)
  with r Cons.IH [of m'] show ?case by simp
qed

lemma concat_chunks:
  "concat (map fst (chunks ks p)) = take (sum_list ks) p"
proof (induction ks arbitrary: p)
  case Nil
  show ?case by simp
next
  case (Cons k ks)
  have "take k p @ take (sum_list ks) (drop k p) = take (k + sum_list ks) p"
    by (simp add: take_add)
  with Cons show ?case by simp
qed

lemma mask_after_Reset:
  "slice_bytes (Reset rs mr m) (mr_mask (Reset rs mr m)) = utf8_EncodeRune mr"
  by (simp add: Reset_def Let_def slice_bytes_def)

lemma pending_Reset:
  "pending (Reset rs mr m) = slice_bytes (Reset [] mr m) (overflow m) @ masked mr rs"
proof -
  have "replacementBytes (Reset rs mr m) = (\<lambda>r. if r = 0x0A then [0x0A] else utf8_EncodeRune mr)"
    by (simp add: replacementBytes_def mask_after_Reset fun_eq_iff)
  moreover have "slice_bytes (Reset rs mr m) (overflow (Reset rs mr m))
      = slice_bytes (Reset [] mr m) (overflow m)"
    by (cases "overflow m") (simp_all add: Reset_def Let_def slice_bytes_def)
  moreover have "mr_rr (Reset rs mr m) = rs"
    by (simp add: Reset_def Let_def)
  ultimately show ?thesis
    by (simp add: pending_def masked_def)
qed

lemma masked_sameShape:
  "sameShape rs1 rs2 \<Longrightarrow> masked mr rs1 = masked mr rs2"
proof (induction rs1 arbitrary: rs2)
  case Nil
  then show ?case by (simp add: sameShape_def masked_def)
next
  case (Cons r rs1)
  then obtain r' rs2' where rs2: "rs2 = r' # rs2'"
    by (cases rs2) (auto simp: sameShape_def)
  with Cons.prems have "(r = 0x0A) = (r' = 0x0A)" "sameShape rs1 rs2'"
    by (simp_all add: sameShape_def)
  with Cons.IH [of rs2'] rs2 show ?case
    by (simp add: masked_def)
qed

text \<open>
  C6. After \<open>Reset\<close> with a mask rune, what any sequence of \<open>Read\<close> calls delivers
  (the bytes of every call and its error flag) is the same for two inputs with the same
  number of runes and newlines at the same rune positions. The bytes delivered are a
  prefix of the masked text, in which the encoding of the mask rune stands for every
  rune but the newline, which stays; they come after whatever an earlier, unfinished
  \<open>Read\<close> left in \<open>overflow\<close>, which \<open>Reset\<close> does not clear and which is empty in a
  reader that has not been read from.
\<close>

theorem maskReader_noninterference:
  "(sameShape rs1 rs2 \<longrightarrow> Reads ks (Reset rs1 mr m) = Reads ks (Reset rs2 mr m))
   \<and> concat (map fst (Reads ks (Reset rs mr m)))
       = take (sum_list ks) (slice_bytes (Reset [] mr m) (overflow m) @ masked mr rs)
   \<and> (overflow m = Own [] \<longrightarrow>
        concat (map fst (Reads ks (Reset rs mr m))) = take (sum_list ks) (masked mr rs))"
proof (intro conjI impI)
  assume "sameShape rs1 rs2"
  then show "Reads ks (Reset rs1 mr m) = Reads ks (Reset rs2 mr m)"
    by (simp add: Reads_chunks pending_Reset masked_sameShape [of rs1 rs2 mr])
next
  show eq: "concat (map fst (Reads ks (Reset rs mr m)))
       = take (sum_list ks) (slice_bytes (Reset [] mr m) (overflow m) @ masked mr rs)"
    by (simp only: Reads_chunks pending_Reset concat_chunks)
  assume "overflow m = Own []"
  then show "concat (map fst (Reads ks (Reset rs mr m))) = take (sum_list ks) (masked mr rs)"
    unfolding eq by (simp add: slice_bytes_def)
qed

theorem maskReader_noninterference_witness:
  "sameShape [0x61, 0x0A, 0x62] [0x4E16, 0x0A, 0x1F600]
   \<and> Reads [2, 5] (Reset [0x61, 0x0A, 0x62] 0x2A maskReader_zero)
       = Reads [2, 5] (Reset [0x4E16, 0x0A, 0x1F600] 0x2A maskReader_zero)
   \<and> Reads [2, 5] (Reset [0x4E16, 0x0A, 0x1F600] 0x2A maskReader_zero)
       = [([0x2A, 0x0A], False), ([0x2A], True)]
   \<and> overflow maskReader_zero = Own []"
proof -
  have s: "sameShape [0x61, 0x0A, 0x62] [0x4E16, 0x0A, 0x1F600]"
    by (simp add: sameShape_def)
  have v: "Reads [2, 5] (Reset [0x4E16, 0x0A, 0x1F600] 0x2A maskReader_zero)
       = [([0x2A, 0x0A], False), ([0x2A], True)]"
    by code_simp
  from s v maskReader_noninterference [of "[0x61, 0x0A, 0x62]" "[0x4E16, 0x0A, 0x1F600]"
      "[2, 5]" "0x2A" maskReader_zero "[]"]
  show ?thesis by (simp add: maskReader_zero_def)
qed

subsection \<open>The JNI shim passes through\<close>

text \<open>
  C2. Each \<open>gio_jni_\<close> function is the call of the table entry of its name on its own
  arguments, whose result (and effect on the Java side) it returns unchanged. The two
  fixed arguments are \<open>NULL\<close> for \<open>isCopy\<close> in \<open>GetByteArrayElements\<close> and
  \<open>JNI_ABORT\<close> for the mode in \<open>ReleaseByteArrayElements\<close>; the entry behind
  \<open>gio_jni_CallVoidMethod\<close> is \<open>CallVoidMethodA\<close>, the one that takes the argument
  array.
\<close>

theorem gio_jni_pass_through:
  "gio_jni_GetEnv t = via_vm t GetEnv
   \<and> gio_jni_GetJavaVM t = via_env t GetJavaVM
   \<and> gio_jni_AttachCurrentThread t = via_vm t AttachCurrentThread
   \<and> gio_jni_DetachCurrentThread t = via_vm t DetachCurrentThread
   \<and> gio_jni_NewGlobalRef t = via_env t NewGlobalRef
   \<and> gio_jni_DeleteGlobalRef t = via_env t DeleteGlobalRef
   \<and> gio_jni_GetObjectClass t = via_env t GetObjectClass
   \<and> gio_jni_GetMethodID t = via_env t GetMethodID
   \<and> gio_jni_GetStaticMethodID t = via_env t GetStaticMethodID
   \<and> gio_jni_CallFloatMethod t = via_env t CallFloatMethod
   \<and> gio_jni_CallIntMethod t = via_env t CallIntMethod
   \<and> gio_jni_CallVoidMethod t = via_env t CallVoidMethodA
   \<and> gio_jni_GetByteArrayElements t env arr = via_env t GetByteArrayElements env arr NULL
   \<and> gio_jni_ReleaseByteArrayElements t env arr bytes
       = via_env t ReleaseByteArrayElements env arr bytes JNI_ABORT
   \<and> gio_jni_GetArrayLength t = via_env t GetArrayLength
   \<and> gio_jni_NewString t = via_env t NewString"
proof -
  have vm: "gio_jni_GetEnv t = via_vm t GetEnv"
    "gio_jni_AttachCurrentThread t = via_vm t AttachCurrentThread"
    "gio_jni_DetachCurrentThread t = via_vm t DetachCurrentThread"
    by (simp_all add: fun_eq_iff via_vm_def gio_jni_GetEnv_def
        gio_jni_AttachCurrentThread_def gio_jni_DetachCurrentThread_def)
  have refs: "gio_jni_GetJavaVM t = via_env t GetJavaVM"
    "gio_jni_NewGlobalRef t = via_env t NewGlobalRef"
    "gio_jni_DeleteGlobalRef t = via_env t DeleteGlobalRef"
    "gio_jni_GetObjectClass t = via_env t GetObjectClass"
    by (simp_all add: fun_eq_iff via_env_def gio_jni_GetJavaVM_def gio_jni_NewGlobalRef_def
        gio_jni_DeleteGlobalRef_def gio_jni_GetObjectClass_def)
  have methods: "gio_jni_GetMethodID t = via_env t GetMethodID"
    "gio_jni_GetStaticMethodID t = via_env t GetStaticMethodID"
    "gio_jni_CallFloatMethod t = via_env t CallFloatMethod"
    "gio_jni_CallIntMethod t = via_env t CallIntMethod"
    "gio_jni_CallVoidMethod t = via_env t CallVoidMethodA"
    by (simp_all add: fun_eq_iff via_env_def gio_jni_GetMethodID_def
        gio_jni_GetStaticMethodID_def gio_jni_CallFloatMethod_def gio_jni_CallIntMethod_def
        gio_jni_CallVoidMethod_def)
  have arrays: "gio_jni_GetByteArrayElements t env arr = via_env t GetByteArrayElements env arr NULL"
    "gio_jni_ReleaseByteArrayElements t env arr bytes
       = via_env t ReleaseByteArrayElements env arr bytes JNI_ABORT"
    "gio_jni_GetArrayLength t = via_env t GetArrayLength"
    "gio_jni_NewString t = via_env t NewString"
    by (simp_all add: fun_eq_iff via_env_def gio_jni_GetByteArrayElements_def
        gio_jni_ReleaseByteArrayElements_def gio_jni_GetArrayLength_def gio_jni_NewString_def)
  from vm refs methods arrays show ?thesis by simp
qed

subsection \<open>The line iterator comes to an end\<close>


text \<open>A well-formed iterator stays well formed and does not panic.\<close>

lemma runeCount_Nil:
  "runeCount [] = 0"
  by (subst runeCount.simps) simp

lemma runeCount_step:
  "s \<noteq> [] \<Longrightarrow> runeCount s = Suc (runeCount (drop (utf8_size s) s))"
  by (subst runeCount.simps) simp

lemma runeCount_drop_le:
  "runeCount (drop (utf8_size s) s) \<le> runeCount s"
  by (cases "s = []") (simp_all add: runeCount_Nil runeCount_step)










subsection \<open>Selection on mouse release\<close>

lemma sortPoints_sorted:
  "sortPoints a b = (s, e) \<Longrightarrow> LessOrEqual s e \<and> ((s, e) = (a, b) \<or> (s, e) = (b, a))"
  by (auto simp: sortPoints_def Less_def LessOrEqual_def split: if_splits)

lemma middleLines_eq:
  "0 \<le> i \<Longrightarrow> endY \<le> int (length ls) \<Longrightarrow>
     middleLines ls i endY acc = Inr (acc @ concat (map (lineText ls) [nat i ..< nat endY]))"
proof (induction ls i endY acc rule: middleLines.induct)
  case (1 ls i endY acc)
  show ?case
  proof (cases "i < endY")
    case False
    then show ?thesis
      by (subst middleLines.simps) simp
  next
    case True
    with "1.prems" have idx: "goIndex ls i = Inr (ls ! nat i)"
      by (simp add: goIndex_def)
    from "1.prems" have "middleLines ls (i + 1) endY (acc @ Text (Layout (ls ! nat i)))
        = Inr ((acc @ Text (Layout (ls ! nat i))) @ concat (map (lineText ls) [nat (i + 1) ..< nat endY]))"
      by (intro "1.IH" [OF True]) simp_all
    moreover from True "1.prems" have "[nat i ..< nat endY] = nat i # [nat (i + 1) ..< nat endY]"
      by (simp add: upt_conv_Cons nat_add_distrib)
    ultimately show ?thesis
      using True idx by (subst middleLines.simps) (simp add: andThen_def lineText_def)
  qed
qed

lemma middleLines_Inr:
  "middleLines ls i endY acc = Inr t \<Longrightarrow> i < endY \<Longrightarrow> 0 \<le> i \<and> endY \<le> int (length ls)"
proof (induction ls i endY acc rule: middleLines.induct)
  case (1 ls i endY acc)
  from "1.prems" obtain ln where ln: "goIndex ls i = Inr ln"
    and call: "middleLines ls (i + 1) endY (acc @ Text (Layout ln)) = Inr t"
    by (subst (asm) middleLines.simps) (auto simp: andThen_def split: sum.splits)
  from ln have i: "0 \<le> i" "i < int (length ls)"
    by (auto simp: goIndex_def split: if_splits)
  show ?case
  proof (cases "i + 1 < endY")
    case True
    from "1.IH" [OF "1.prems"(2) call True] i show ?thesis by simp
  next
    case False
    with "1.prems"(2) i show ?thesis by simp
  qed
qed

lemma selectionText_Inr:
  assumes "LessOrEqual s e"
  shows "selectionText ls s e = Inr t \<longleftrightarrow> selectable ls s e \<and> t = byteSlices ls s e"
proof (cases "Y s = Y e")
  case True
  with assms show ?thesis
    by (auto simp: selectionText_def andThen_def goIndex_def sliceBetween_def selectable_def
        byteSlices_def lineText_def LessOrEqual_def split: sum.splits if_splits)
next
  case False
  with assms have lt: "Y s < Y e"
    by (simp add: LessOrEqual_def)
  show ?thesis
  proof
    assume sel: "selectionText ls s e = Inr t"
    from sel False obtain l0 t0 t1 l2 t2 where
      a: "goIndex ls (Y s) = Inr l0" "sliceFrom (Text (Layout l0)) (X s) = Inr t0"
      "middleLines ls (Y s + 1) (Y e) t0 = Inr t1" "goIndex ls (Y e) = Inr l2"
      "sliceTo (Text (Layout l2)) (X e) = Inr t2" "t = t1 @ t2"
      by (auto simp: selectionText_def andThen_def split: sum.splits)
    from a(1,4) have r: "0 \<le> Y s" "Y e < int (length ls)" "l0 = ls ! nat (Y s)" "l2 = ls ! nat (Y e)"
      by (auto simp: goIndex_def split: if_splits)
    from a(3) r lt have "t1 = t0 @ concat (map (lineText ls) [nat (Y s + 1) ..< nat (Y e)])"
      using middleLines_eq [of "Y s + 1" "Y e" ls t0] by simp
    with a(2,5,6) r lt False show "selectable ls s e \<and> t = byteSlices ls s e"
      by (auto simp: sliceFrom_def sliceTo_def selectable_def byteSlices_def lineText_def
          nat_add_distrib split: if_splits)
  next
    assume "selectable ls s e \<and> t = byteSlices ls s e"
    with False lt have r: "0 \<le> Y s" "Y e < int (length ls)" "0 \<le> X s" "0 \<le> X e"
      "X e \<le> int (length (lineText ls (nat (Y e))))"
      "X s \<le> int (length (lineText ls (nat (Y s))))" and t: "t = byteSlices ls s e"
      by (simp_all add: selectable_def)
    from r lt have m: "\<And>acc. middleLines ls (Y s + 1) (Y e) acc
        = Inr (acc @ concat (map (lineText ls) [nat (Y s + 1) ..< nat (Y e)]))"
      by (intro middleLines_eq) simp_all
    from r lt False t show "selectionText ls s e = Inr t"
      by (simp add: selectionText_def andThen_def goIndex_def sliceFrom_def sliceTo_def m
          byteSlices_def lineText_def nat_add_distrib)
  qed
qed


lemma releaseSelection_same:
  "startDrag e = caretPoint e \<Longrightarrow>
     releaseSelection e = Inr (e\<lparr>endDrag := caretPoint e, caret_scroll := True, dragging := False\<rparr>)"
  by (simp add: releaseSelection_def caretPoint_def Let_def)

lemma releaseSelection_moved:
  assumes "startDrag e \<noteq> caretPoint e" and "sortPoints (startDrag e) (caretPoint e) = (s, t)"
  shows "releaseSelection e =
    andThen (selectionText (lines e) s t) (\<lambda>selection.
      if selection \<noteq> []
      then Inr (appendEvent (e\<lparr>caret_scroll := True, dragging := False, startDrag := s,
                              endDrag := t\<rparr>) (SelectEvent selection))
      else Inr (e\<lparr>caret_scroll := True, dragging := False, startDrag := s, endDrag := t\<rparr>))"
  using assms by (simp add: releaseSelection_def caretPoint_def Let_def)

text \<open>
  What the source does on release, in full. The sorted points are the start of the drag
  and the caret, in the order that \<open>LessOrEqual\<close> gives them. On the same point
  nothing is appended. On different points whose columns are within the bytes of their
  lines a \<open>SelectEvent\<close> is appended exactly when the byte slices are not empty, and
  carries them. Other columns make the slices panic.
\<close>

lemma release_takes_byteSlices:
  assumes "dragging e" and "moveCoord p e = Inr e0"
    and "sortPoints (startDrag e0) (caretPoint e0) = (s, t)"
  shows "LessOrEqual s t
    \<and> ((s, t) = (startDrag e0, caretPoint e0) \<or> (s, t) = (caretPoint e0, startDrag e0))
    \<and> (if startDrag e0 = caretPoint e0 then
         (\<exists>e'. dragRelease moveCoord p e = Inr e' \<and> events e' = events e0)
       else if selectable (lines e0) s t then
         (\<exists>e'. dragRelease moveCoord p e = Inr e' \<and> startDrag e' = s \<and> endDrag e' = t
            \<and> events e' = (if byteSlices (lines e0) s t \<noteq> []
                  then events e0 @ [SelectEvent (byteSlices (lines e0) s t)] else events e0))
       else (\<exists>q. dragRelease moveCoord p e = Inl q))"
proof -
  from sortPoints_sorted [OF assms(3)] have le: "LessOrEqual s t"
    and pts: "(s, t) = (startDrag e0, caretPoint e0) \<or> (s, t) = (caretPoint e0, startDrag e0)"
    by simp_all
  from assms(1,2) have dr: "dragRelease moveCoord p e = releaseSelection e0"
    by (simp add: dragRelease_def andThen_def)
  have "if startDrag e0 = caretPoint e0 then
         (\<exists>e'. dragRelease moveCoord p e = Inr e' \<and> events e' = events e0)
       else if selectable (lines e0) s t then
         (\<exists>e'. dragRelease moveCoord p e = Inr e' \<and> startDrag e' = s \<and> endDrag e' = t
            \<and> events e' = (if byteSlices (lines e0) s t \<noteq> []
                  then events e0 @ [SelectEvent (byteSlices (lines e0) s t)] else events e0))
       else (\<exists>q. dragRelease moveCoord p e = Inl q)"
  proof (cases "startDrag e0 = caretPoint e0")
    case True
    with dr releaseSelection_same [OF True] show ?thesis by simp
  next
    case moved: False
    note rs = releaseSelection_moved [OF moved assms(3)]
    show ?thesis
    proof (cases "selectable (lines e0) s t")
      case True
      with selectionText_Inr [OF le, of "lines e0" "byteSlices (lines e0) s t"]
      have "selectionText (lines e0) s t = Inr (byteSlices (lines e0) s t)" by simp
      with dr moved True rs show ?thesis
        by (simp add: andThen_def appendEvent_def)
    next
      case False
      with selectionText_Inr [OF le, of "lines e0"]
      obtain q where "selectionText (lines e0) s t = Inl q"
        by (cases "selectionText (lines e0) s t") auto
      with dr moved False rs show ?thesis
        by (simp add: andThen_def)
    qed
  qed
  with le pts show ?thesis by blast
qed

text \<open>On text of one-byte runes a column is a byte offset, and the byte slices are the
  text between the points.\<close>

lemma utf8_size_singleByte:
  assumes "t \<noteq> []" and "singleByte t"
  shows "utf8_size t = 1"
proof -
  from assms obtain c cs where t: "t = c # cs" by (cases t) auto
  with assms(2) have "byte_at t 0 < 0x80"
    by (simp add: singleByte_def byte_at_def)
  with assms(1) show ?thesis
    by (simp add: utf8_size_def Let_def)
qed

lemma runeOffset_singleByte:
  "singleByte t \<Longrightarrow> runeOffset t k = min k (length t)"
proof (induction k arbitrary: t)
  case 0
  show ?case by simp
next
  case (Suc k)
  show ?case
  proof (cases "t = []")
    case True
    then show ?thesis by simp
  next
    case False
    from Suc.prems have "singleByte (drop 1 t)"
      by (simp add: singleByte_def list_all_iff) (meson in_set_dropD)
    from Suc.IH [OF this] False utf8_size_singleByte [OF False Suc.prems] show ?thesis
      by (cases t) simp_all
  qed
qed

lemma between_singleByte:
  assumes "list_all (\<lambda>ln. singleByte (Text (Layout ln))) ls"
    and "LessOrEqual s t" and "selectable ls s t"
  shows "between ls s t = byteSlices ls s t"
proof -
  from assms(2,3) have ys: "nat (Y s) < length ls" and yt: "nat (Y t) < length ls"
    by (auto simp: selectable_def LessOrEqual_def split: if_splits)
  with assms(1) have sb: "singleByte (lineText ls (nat (Y s)))" "singleByte (lineText ls (nat (Y t)))"
    by (simp_all add: list_all_length lineText_def)
  from assms(3) have xs: "nat (X s) \<le> length (lineText ls (nat (Y s)))"
    and xt: "nat (X t) \<le> length (lineText ls (nat (Y t)))"
    by (auto simp: selectable_def split: if_splits)
  from sb xs xt have "runeOffset (lineText ls (nat (Y s))) (nat (X s)) = nat (X s)"
    "runeOffset (lineText ls (nat (Y t))) (nat (X t)) = nat (X t)"
    by (simp_all add: runeOffset_singleByte)
  then show ?thesis
    by (cases "Y s = Y t") (simp_all add: between_def byteSlices_def Let_def)
qed

lemma release_on_single_byte_text:
  assumes "dragging e" and "moveCoord p e = Inr e0"
    and "sortPoints (startDrag e0) (caretPoint e0) = (s, t)"
    and "startDrag e0 \<noteq> caretPoint e0" and "selectable (lines e0) s t"
    and "list_all (\<lambda>ln. singleByte (Text (Layout ln))) (lines e0)"
  shows "\<exists>e'. dragRelease moveCoord p e = Inr e' \<and> startDrag e' = s \<and> endDrag e' = t
    \<and> events e' = (if between (lines e0) s t \<noteq> []
          then events e0 @ [SelectEvent (between (lines e0) s t)] else events e0)"
proof -
  from release_takes_byteSlices [where moveCoord = moveCoord and p = p and e = e,
      OF assms(1-3)] assms(4,5)
  have le: "LessOrEqual s t"
    and r: "\<exists>e'. dragRelease moveCoord p e = Inr e' \<and> startDrag e' = s \<and> endDrag e' = t
      \<and> events e' = (if byteSlices (lines e0) s t \<noteq> []
            then events e0 @ [SelectEvent (byteSlices (lines e0) s t)] else events e0)"
    by simp_all
  from between_singleByte [OF assms(6) le assms(5)] r show ?thesis
    by (simp only:)
qed

text \<open>
  C5. The text of the \<open>SelectEvent\<close> should be the text between the two end points
  of the drag, sorted so that start \<open>\<le>\<close> end. The end points are caret positions,
  whose columns count runes, but the source slices the bytes of a line at those columns.
  On the line \<open>e-acute a\<close>, with a drag that began behind the \<open>a\<close> (column 2) and
  is released in front of it (column 1), the points are sorted to columns 1 and 2 and
  the text between them is \<open>a\<close>; the event that the source appends carries the one
  byte \<open>0xA9\<close> instead, the second byte of the \<open>e-acute\<close>.
\<close>

theorem mouse_release_slices_bytes:
  "map_sum id (\<lambda>e. (startDrag e, endDrag e, events e))
       (dragRelease caretTo \<lparr>X = 1, Y = 0\<rparr> editor_ea)
     = Inr (\<lparr>X = 1, Y = 0\<rparr>, \<lparr>X = 2, Y = 0\<rparr>, [SelectEvent [CHR 0xA9]])
   \<and> between (lines editor_ea) \<lparr>X = 1, Y = 0\<rparr> \<lparr>X = 2, Y = 0\<rparr> = ''a''"
proof -
  have code: "map_sum id (\<lambda>e. (startDrag e, endDrag e, events e))
       (dragRelease caretTo \<lparr>X = 1, Y = 0\<rparr> editor_ea)
     = Inr (\<lparr>X = 1, Y = 0\<rparr>, \<lparr>X = 2, Y = 0\<rparr>, [SelectEvent [CHR 0xA9]])"
    by code_simp
  have claimed: "between (lines editor_ea) \<lparr>X = 1, Y = 0\<rparr> \<lparr>X = 2, Y = 0\<rparr> = ''a''"
    by code_simp
  from code claimed show ?thesis by simp
qed

subsection \<open>Alignment values and the panic of align\<close>














end
